theory Spec2Isabelle
  imports Complex_Main
begin

section \<open>Python values, dictionaries and exceptions\<close>

text \<open>
  The values a metadata dictionary can hold. A Python \<open>dict\<close> with string keys is a map
  from keys to values; \<open>{**a, **b}\<close> is \<open>a ++ b\<close> (the right operand wins on a shared
  key). Python floats are modelled by the reals: the decision logic only compares and
  averages them.
\<close>

datatype pyval =
    PNone
  | PNum real
  | PStr string
  | PList "pyval list"
  | PDict "(string \<times> pyval) list"

type_synonym pydict = "string \<rightharpoonup> pyval"

datatype pyexn = PyExn string

text \<open>
  A registered callback \<open>cb(text, metadata)\<close>: the model keeps whether the call returns
  (\<open>None\<close>) or raises (\<open>Some e\<close>).
\<close>

type_synonym callback = "string \<Rightarrow> pydict \<Rightarrow> pyexn option"

text \<open>
  An entry of the \<open>words\<close> list: either a dict (with its \<open>'word'\<close> and its optional
  numeric \<open>'confidence'\<close>), or any value that is not a dict.
\<close>

datatype word_entry =
    WordDict string "real option"
  | NotDict pyval

section \<open>Text normalisation\<close>

text \<open>
  A \<open>char\<close> stands for the code point of the same number (0 to 255). The three character
  classes are the ones of Python 3 on that range: \<open>str.isspace\<close> (used by \<open>strip\<close> and
  \<open>split\<close>), the regular expression class \<open>\w\<close>, and \<open>str.lower\<close>.
\<close>

definition is_space :: "char \<Rightarrow> bool" where
  "is_space c =
     (let n = (of_char c :: nat)
      in (9 \<le> n \<and> n \<le> 13) \<or> (28 \<le> n \<and> n \<le> 32) \<or> n = 133 \<or> n = 160)"

definition is_word_char :: "char \<Rightarrow> bool" where
  "is_word_char c =
     (let n = (of_char c :: nat)
      in (48 \<le> n \<and> n \<le> 57) \<or> (65 \<le> n \<and> n \<le> 90) \<or> n = 95 \<or> (97 \<le> n \<and> n \<le> 122)
         \<or> n = 170 \<or> n = 178 \<or> n = 179 \<or> n = 181 \<or> n = 185 \<or> n = 186
         \<or> (188 \<le> n \<and> n \<le> 190) \<or> (192 \<le> n \<and> n \<le> 214) \<or> (216 \<le> n \<and> n \<le> 246)
         \<or> 248 \<le> n)"

definition lower_char :: "char \<Rightarrow> char" where
  "lower_char c =
     (let n = (of_char c :: nat)
      in if (65 \<le> n \<and> n \<le> 90) \<or> (192 \<le> n \<and> n \<le> 222 \<and> n \<noteq> 215)
         then char_of (n + 32) else c)"

definition lower :: "string \<Rightarrow> string" where
  "lower s = map lower_char s"

definition strip :: "string \<Rightarrow> string" where
  "strip s = rev (dropWhile is_space (rev (dropWhile is_space s)))"

text \<open>
  \<open>_TOKEN_RE = re.compile(r"[^\w']+")\<close>; \<open>_TOKEN_RE.sub(" ", s)\<close> replaces every maximal
  run of characters that are neither word characters nor apostrophes by one space.
\<close>

definition in_token_class :: "char \<Rightarrow> bool" where
  "in_token_class c = (\<not> is_word_char c \<and> c \<noteq> CHR 0x27)"

fun token_re_sub :: "bool \<Rightarrow> string \<Rightarrow> string" where
  "token_re_sub in_run [] = []"
| "token_re_sub in_run (c # cs) =
     (if in_token_class c
      then (if in_run then token_re_sub True cs else CHR '' '' # token_re_sub True cs)
      else c # token_re_sub False cs)"

definition normalize_text :: "string \<Rightarrow> string" where
  "normalize_text text = lower (strip (token_re_sub False text))"

text \<open>\<open>str.split()\<close>: the maximal runs of characters that are not whitespace.\<close>

fun split_ws :: "string \<Rightarrow> string \<Rightarrow> string list" where
  "split_ws cur [] = (if cur = [] then [] else [cur])"
| "split_ws cur (c # cs) =
     (if is_space c
      then (if cur = [] then split_ws [] cs else cur # split_ws [] cs)
      else split_ws (cur @ [c]) cs)"

definition tokenize :: "string \<Rightarrow> string list" where
  "tokenize text = filter (\<lambda>t. t \<noteq> []) (split_ws [] (normalize_text text))"

section \<open>The handler\<close>

definition DEFAULT_IGNORED_WORDS :: "string list" where
  "DEFAULT_IGNORED_WORDS =
     [''uh'', ''umm'', ''hmm'', ''haan'', ''uhh'', ''uhm'', ''erm'', ''ah'', ''mm'', ''mmh'',
      ''mhmm'']"

definition DEFAULT_FORCE_STOP_WORDS :: "string list" where
  "DEFAULT_FORCE_STOP_WORDS =
     [''stop'', ''wait'', ''hold'', ''pause'', ''waita'', ''no'', ''waitone'', ''waitone'',
      ''one moment'']"

record handler =
  ignored_words :: "string set"
  force_stop_words :: "string set"
  min_confidence_to_consider :: real
  ignore_if_confidence_below :: real
  agent_speaking :: bool
  callbacks :: "string \<rightharpoonup> callback"

text \<open>\<open>xs or default\<close> for an optional list: \<open>None\<close> and the empty list are falsy.\<close>

definition or_default :: "string list option \<Rightarrow> string list \<Rightarrow> string list" where
  "or_default xs dflt = (case xs of None \<Rightarrow> dflt | Some [] \<Rightarrow> dflt | Some (y # ys) \<Rightarrow> y # ys)"

definition init :: "string list option \<Rightarrow> string list option \<Rightarrow> real \<Rightarrow> real \<Rightarrow> handler" where
  "init ignored force_stop min_conf ignore_below =
     \<lparr> ignored_words = set (map lower (or_default ignored DEFAULT_IGNORED_WORDS)),
       force_stop_words = set (map lower (or_default force_stop DEFAULT_FORCE_STOP_WORDS)),
       min_confidence_to_consider = min_conf,
       ignore_if_confidence_below = ignore_below,
       agent_speaking = False,
       callbacks = Map.empty \<rparr>"

definition on_valid_interruption :: "handler \<Rightarrow> callback \<Rightarrow> handler" where
  "on_valid_interruption h cb = h\<lparr>callbacks := (callbacks h)(''valid_interruption'' \<mapsto> cb)\<rparr>"

definition on_ignored_filler :: "handler \<Rightarrow> callback \<Rightarrow> handler" where
  "on_ignored_filler h cb = h\<lparr>callbacks := (callbacks h)(''ignored_filler'' \<mapsto> cb)\<rparr>"

definition on_speech_registered :: "handler \<Rightarrow> callback \<Rightarrow> handler" where
  "on_speech_registered h cb = h\<lparr>callbacks := (callbacks h)(''speech_registered'' \<mapsto> cb)\<rparr>"

definition update_ignored_words :: "handler \<Rightarrow> string list \<Rightarrow> handler" where
  "update_ignored_words h new_list = h\<lparr>ignored_words := set (map lower new_list)\<rparr>"

definition update_force_stop_words :: "handler \<Rightarrow> string list \<Rightarrow> handler" where
  "update_force_stop_words h new_list = h\<lparr>force_stop_words := set (map lower new_list)\<rparr>"

definition on_tts_start :: "handler \<Rightarrow> handler" where
  "on_tts_start h = h\<lparr>agent_speaking := True\<rparr>"

definition on_tts_end :: "handler \<Rightarrow> handler" where
  "on_tts_end h = h\<lparr>agent_speaking := False\<rparr>"

section \<open>Classification of a transcript\<close>

text \<open>
  The confidence of a transcript (lines 151 to 159 of the handler): the mean of the
  confidences of the dict entries of \<open>words\<close> (a dict without \<open>'confidence'\<close> counts
  as 1.0) when there is one, else the caller's \<open>confidence\<close>, else 1.0.
\<close>

fun entry_confidences :: "word_entry list \<Rightarrow> real list" where
  "entry_confidences [] = []"
| "entry_confidences (WordDict w None # ws) = 1 # entry_confidences ws"
| "entry_confidences (WordDict w (Some c) # ws) = c # entry_confidences ws"
| "entry_confidences (NotDict v # ws) = entry_confidences ws"

definition confidence_or_one :: "real option \<Rightarrow> real" where
  "confidence_or_one confidence = (case confidence of None \<Rightarrow> 1 | Some c \<Rightarrow> c)"

definition compute_avg_conf :: "real option \<Rightarrow> word_entry list option \<Rightarrow> real" where
  "compute_avg_conf confidence words =
     (case words of
        Some (w # ws) \<Rightarrow>
          (let confidences = entry_confidences (w # ws)
           in if confidences \<noteq> []
              then sum_list confidences / real (length confidences)
              else confidence_or_one confidence)
      | _ \<Rightarrow> confidence_or_one confidence)"

text \<open>
  What one call of \<open>handle_transcript\<close> does: the callback key of the branch it takes
  (the outcome kind), the diagnostic fields that branch computes, the callback calls it
  makes in order (key, text argument, metadata argument), and the exception that leaves
  the call (if the callback raises; the source has no \<open>try\<close>).
\<close>

record run =
  kind :: string
  diag :: pydict
  calls :: "(string \<times> string \<times> pydict) list"
  raised :: "pyexn option"

text \<open>
  The last three lines of every branch:
  \<open>cb = self._callbacks.get(key); if cb: cb(text, {**diag, **metadata}); return\<close>.
\<close>

definition emit :: "handler \<Rightarrow> string \<Rightarrow> string \<Rightarrow> pydict \<Rightarrow> pydict \<Rightarrow> run" where
  "emit h key text d metadata =
     (case callbacks h key of
        None \<Rightarrow> \<lparr>kind = key, diag = d, calls = [], raised = None\<rparr>
      | Some cb \<Rightarrow>
          \<lparr>kind = key, diag = d, calls = [(key, text, d ++ metadata)],
           raised = cb text (d ++ metadata)\<rparr>)"

text \<open>\<open>metadata or {}\<close>.\<close>

definition or_empty :: "pydict option \<Rightarrow> pydict" where
  "or_empty metadata = (case metadata of None \<Rightarrow> Map.empty | Some m \<Rightarrow> m)"

definition handle_transcript ::
  "handler \<Rightarrow> string \<Rightarrow> real option \<Rightarrow> word_entry list option \<Rightarrow> pydict option \<Rightarrow> run option"
where
  "handle_transcript h text0 confidence words metadata0 =
     (let metadata = or_empty metadata0;
          text = strip text0
      in if text = [] then None
         else
           let tokens = tokenize text;
               avg_conf = compute_avg_conf confidence words
           in if agent_speaking h then
                if avg_conf < ignore_if_confidence_below h then
                  Some (emit h ''ignored_filler'' text
                          [''reason'' \<mapsto> PStr ''low_confidence'', ''avg_conf'' \<mapsto> PNum avg_conf]
                          metadata)
                else
                  let non_ignored_tokens = filter (\<lambda>t. t \<notin> ignored_words h) tokens;
                      has_force_stop = list_ex (\<lambda>t. t \<in> force_stop_words h) tokens
                  in if has_force_stop then
                       Some (emit h ''valid_interruption'' text
                               [''reason'' \<mapsto> PStr ''force_stop_word'',
                                ''avg_conf'' \<mapsto> PNum avg_conf]
                               metadata)
                     else if non_ignored_tokens = [] then
                       Some (emit h ''ignored_filler'' text
                               [''reason'' \<mapsto> PStr ''filler_only'', ''avg_conf'' \<mapsto> PNum avg_conf]
                               metadata)
                     else
                       Some (emit h ''valid_interruption'' text
                               [''reason'' \<mapsto> PStr ''mixed_tokens'',
                                ''non_ignored'' \<mapsto> PList (map PStr non_ignored_tokens),
                                ''avg_conf'' \<mapsto> PNum avg_conf]
                               metadata)
              else
                Some (emit h ''speech_registered'' text
                        [''reason'' \<mapsto> PStr ''agent_quiet'', ''avg_conf'' \<mapsto> PNum avg_conf]
                        metadata))"

text \<open>Two sample callbacks: one returns, one raises.\<close>

definition cb_return :: callback where
  "cb_return text metadata = None"

definition cb_raise :: callback where
  "cb_raise text metadata = Some (PyExn ''boom'')"

section \<open>Vocabulary of the properties\<close>

text \<open>
  \<open>isinstance(w, dict)\<close> and \<open>w.get("confidence", 1.0)\<close> on one entry, and the
  unweighted mean of a list of numbers.
\<close>

fun is_record :: "word_entry \<Rightarrow> bool" where
  "is_record (WordDict w c) = True"
| "is_record (NotDict v) = False"

fun record_confidence :: "word_entry \<Rightarrow> real" where
  "record_confidence (WordDict w (Some c)) = c"
| "record_confidence (WordDict w None) = 1"
| "record_confidence (NotDict v) = 1"

definition records_of :: "word_entry list option \<Rightarrow> word_entry list" where
  "records_of words = (case words of None \<Rightarrow> [] | Some ws \<Rightarrow> filter is_record ws)"

definition mean :: "real list \<Rightarrow> real" where
  "mean xs = sum_list xs / real (length xs)"

text \<open>A handler whose two word sets hold lowercase entries only.\<close>

definition lowercase_sets :: "handler \<Rightarrow> bool" where
  "lowercase_sets h =
     ((\<forall>w \<in> ignored_words h. lower w = w) \<and> (\<forall>w \<in> force_stop_words h. lower w = w))"

text \<open>Two handlers that agree on every field but \<open>min_confidence_to_consider\<close>.\<close>

definition same_but_min_confidence :: "handler \<Rightarrow> handler \<Rightarrow> bool" where
  "same_but_min_confidence h1 h2 =
     (ignored_words h1 = ignored_words h2 \<and> force_stop_words h1 = force_stop_words h2
      \<and> ignore_if_confidence_below h1 = ignore_if_confidence_below h2
      \<and> agent_speaking h1 = agent_speaking h2 \<and> callbacks h1 = callbacks h2)"

section \<open>The branches of \<open>handle_transcript\<close>\<close>

lemma kind_emit: "kind (emit h key text d m) = key"
  by (simp add: emit_def split: option.split)

lemma diag_emit: "diag (emit h key text d m) = d"
  by (simp add: emit_def split: option.split)

lemma calls_emit:
  "calls (emit h key text d m) =
     (case callbacks h key of None \<Rightarrow> [] | Some cb \<Rightarrow> [(key, text, d ++ m)])"
  by (simp add: emit_def split: option.split)

lemma raised_emit:
  "raised (emit h key text d m) =
     (case callbacks h key of None \<Rightarrow> None | Some cb \<Rightarrow> cb text (d ++ m))"
  by (simp add: emit_def split: option.split)

lemma ht_empty: "strip text = [] \<Longrightarrow> handle_transcript h text c w m = None"
  by (simp add: handle_transcript_def)

lemma ht_quiet:
  "strip text \<noteq> [] \<Longrightarrow> \<not> agent_speaking h \<Longrightarrow>
   handle_transcript h text c w m =
     Some (emit h ''speech_registered'' (strip text)
             [''reason'' \<mapsto> PStr ''agent_quiet'', ''avg_conf'' \<mapsto> PNum (compute_avg_conf c w)]
             (or_empty m))"
  by (simp add: handle_transcript_def Let_def)

lemma ht_low:
  "strip text \<noteq> [] \<Longrightarrow> agent_speaking h \<Longrightarrow>
   compute_avg_conf c w < ignore_if_confidence_below h \<Longrightarrow>
   handle_transcript h text c w m =
     Some (emit h ''ignored_filler'' (strip text)
             [''reason'' \<mapsto> PStr ''low_confidence'', ''avg_conf'' \<mapsto> PNum (compute_avg_conf c w)]
             (or_empty m))"
  by (simp add: handle_transcript_def Let_def)

lemma ht_force:
  "strip text \<noteq> [] \<Longrightarrow> agent_speaking h \<Longrightarrow>
   \<not> compute_avg_conf c w < ignore_if_confidence_below h \<Longrightarrow>
   list_ex (\<lambda>t. t \<in> force_stop_words h) (tokenize (strip text)) \<Longrightarrow>
   handle_transcript h text c w m =
     Some (emit h ''valid_interruption'' (strip text)
             [''reason'' \<mapsto> PStr ''force_stop_word'', ''avg_conf'' \<mapsto> PNum (compute_avg_conf c w)]
             (or_empty m))"
  by (simp add: handle_transcript_def Let_def)

lemma ht_filler:
  "strip text \<noteq> [] \<Longrightarrow> agent_speaking h \<Longrightarrow>
   \<not> compute_avg_conf c w < ignore_if_confidence_below h \<Longrightarrow>
   \<not> list_ex (\<lambda>t. t \<in> force_stop_words h) (tokenize (strip text)) \<Longrightarrow>
   filter (\<lambda>t. t \<notin> ignored_words h) (tokenize (strip text)) = [] \<Longrightarrow>
   handle_transcript h text c w m =
     Some (emit h ''ignored_filler'' (strip text)
             [''reason'' \<mapsto> PStr ''filler_only'', ''avg_conf'' \<mapsto> PNum (compute_avg_conf c w)]
             (or_empty m))"
  by (simp add: handle_transcript_def Let_def)

lemma ht_mixed:
  "strip text \<noteq> [] \<Longrightarrow> agent_speaking h \<Longrightarrow>
   \<not> compute_avg_conf c w < ignore_if_confidence_below h \<Longrightarrow>
   \<not> list_ex (\<lambda>t. t \<in> force_stop_words h) (tokenize (strip text)) \<Longrightarrow>
   filter (\<lambda>t. t \<notin> ignored_words h) (tokenize (strip text)) \<noteq> [] \<Longrightarrow>
   handle_transcript h text c w m =
     Some (emit h ''valid_interruption'' (strip text)
             [''reason'' \<mapsto> PStr ''mixed_tokens'',
              ''non_ignored'' \<mapsto>
                 PList (map PStr (filter (\<lambda>t. t \<notin> ignored_words h) (tokenize (strip text)))),
              ''avg_conf'' \<mapsto> PNum (compute_avg_conf c w)]
             (or_empty m))"
  by (simp add: handle_transcript_def Let_def)

lemma ht_cases:
  obtains (quiet) "\<not> agent_speaking h"
  | (low) "agent_speaking h" "compute_avg_conf c w < ignore_if_confidence_below h"
  | (force) "agent_speaking h" "\<not> compute_avg_conf c w < ignore_if_confidence_below h"
      "list_ex (\<lambda>t. t \<in> force_stop_words h) (tokenize (strip tx))"
  | (filler) "agent_speaking h" "\<not> compute_avg_conf c w < ignore_if_confidence_below h"
      "\<not> list_ex (\<lambda>t. t \<in> force_stop_words h) (tokenize (strip tx))"
      "filter (\<lambda>t. t \<notin> ignored_words h) (tokenize (strip tx)) = []"
  | (mixed) "agent_speaking h" "\<not> compute_avg_conf c w < ignore_if_confidence_below h"
      "\<not> list_ex (\<lambda>t. t \<in> force_stop_words h) (tokenize (strip tx))"
      "filter (\<lambda>t. t \<notin> ignored_words h) (tokenize (strip tx)) \<noteq> []"
  by blast

lemma ht_some_emit:
  assumes "strip text \<noteq> []"
  shows "\<exists>key d. key \<in> {''valid_interruption'', ''ignored_filler'', ''speech_registered''}
           \<and> handle_transcript h text c w m = Some (emit h key (strip text) d (or_empty m))"
proof (cases rule: ht_cases [where h = h and c = c and w = w and tx = "text"])
  case quiet
  from ht_quiet [OF assms quiet, of c w m] show ?thesis by blast
next
  case low
  from ht_low [OF assms low, of m] show ?thesis by blast
next
  case force
  from ht_force [OF assms force, of m] show ?thesis by blast
next
  case filler
  from ht_filler [OF assms filler, of m] show ?thesis by blast
next
  case mixed
  from ht_mixed [OF assms mixed, of m] show ?thesis by blast
qed

lemma ht_some_strip: "handle_transcript h text c w m = Some r \<Longrightarrow> strip text \<noteq> []"
  by (auto simp: handle_transcript_def)

lemma entry_confidences_eq:
  "entry_confidences ws = map record_confidence (filter is_record ws)"
  by (induction ws rule: entry_confidences.induct) simp_all

lemma ht_diag:
  assumes "handle_transcript h text c w m = Some r"
  shows "diag r ''avg_conf'' = Some (PNum (compute_avg_conf c w))"
    and "diag r ''reason'' \<in> Some ` PStr ` {''low_confidence'', ''force_stop_word'',
                                    ''filler_only'', ''mixed_tokens'', ''agent_quiet''}"
    and "diag r ''reason'' = Some (PStr ''mixed_tokens'') \<longrightarrow>
           diag r ''non_ignored'' =
             Some (PList (map PStr (filter (\<lambda>t. t \<notin> ignored_words h)
                                      (tokenize (strip text)))))"
    and "diag r ''reason'' \<noteq> Some (PStr ''mixed_tokens'') \<longrightarrow> diag r ''non_ignored'' = None"
    and "dom (diag r) \<subseteq> {''reason'', ''avg_conf'', ''non_ignored''}"
proof -
  have ne: "strip text \<noteq> []" using assms by (rule ht_some_strip)
  have "diag r ''avg_conf'' = Some (PNum (compute_avg_conf c w))
       \<and> diag r ''reason'' \<in> Some ` PStr ` {''low_confidence'', ''force_stop_word'',
                                    ''filler_only'', ''mixed_tokens'', ''agent_quiet''}
       \<and> (diag r ''reason'' = Some (PStr ''mixed_tokens'') \<longrightarrow>
            diag r ''non_ignored'' =
              Some (PList (map PStr (filter (\<lambda>t. t \<notin> ignored_words h)
                                       (tokenize (strip text))))))
       \<and> (diag r ''reason'' \<noteq> Some (PStr ''mixed_tokens'') \<longrightarrow> diag r ''non_ignored'' = None)
       \<and> dom (diag r) \<subseteq> {''reason'', ''avg_conf'', ''non_ignored''}"
  proof (cases rule: ht_cases [where h = h and c = c and w = w and tx = "text"])
    case quiet
    from ht_quiet [OF ne quiet, of c w m] assms show ?thesis by (auto simp: diag_emit)
  next
    case low
    from ht_low [OF ne low, of m] assms show ?thesis by (auto simp: diag_emit)
  next
    case force
    from ht_force [OF ne force, of m] assms show ?thesis by (auto simp: diag_emit)
  next
    case filler
    from ht_filler [OF ne filler, of m] assms show ?thesis by (auto simp: diag_emit)
  next
    case mixed
    from ht_mixed [OF ne mixed, of m] assms show ?thesis by (auto simp: diag_emit)
  qed
  then show "diag r ''avg_conf'' = Some (PNum (compute_avg_conf c w))"
    and "diag r ''reason'' \<in> Some ` PStr ` {''low_confidence'', ''force_stop_word'',
                                    ''filler_only'', ''mixed_tokens'', ''agent_quiet''}"
    and "diag r ''reason'' = Some (PStr ''mixed_tokens'') \<longrightarrow>
           diag r ''non_ignored'' =
             Some (PList (map PStr (filter (\<lambda>t. t \<notin> ignored_words h)
                                      (tokenize (strip text)))))"
    and "diag r ''reason'' \<noteq> Some (PStr ''mixed_tokens'') \<longrightarrow> diag r ''non_ignored'' = None"
    and "dom (diag r) \<subseteq> {''reason'', ''avg_conf'', ''non_ignored''}"
    by blast+
qed

lemma ht_calls:
  assumes "handle_transcript h text c w m = Some r"
  shows "calls r = (case callbacks h (kind r) of None \<Rightarrow> []
                    | Some cb \<Rightarrow> [(kind r, strip text, diag r ++ or_empty m)])"
    and "raised r = (case callbacks h (kind r) of None \<Rightarrow> None
                     | Some cb \<Rightarrow> cb (strip text) (diag r ++ or_empty m))"
    and "kind r \<in> {''valid_interruption'', ''ignored_filler'', ''speech_registered''}"
proof -
  have ne: "strip text \<noteq> []" using assms by (rule ht_some_strip)
  from ht_some_emit [OF ne, of h c w m] assms
  obtain key d where k: "key \<in> {''valid_interruption'', ''ignored_filler'', ''speech_registered''}"
    and r: "r = emit h key (strip text) d (or_empty m)"
    by auto
  show "calls r = (case callbacks h (kind r) of None \<Rightarrow> []
                    | Some cb \<Rightarrow> [(kind r, strip text, diag r ++ or_empty m)])"
    by (simp add: r kind_emit diag_emit calls_emit split: option.split)
  show "raised r = (case callbacks h (kind r) of None \<Rightarrow> None
                     | Some cb \<Rightarrow> cb (strip text) (diag r ++ or_empty m))"
    by (simp add: r kind_emit diag_emit raised_emit split: option.split)
  show "kind r \<in> {''valid_interruption'', ''ignored_filler'', ''speech_registered''}"
    using k by (simp add: r kind_emit)
qed

lemma lower_char_idem: "lower_char (lower_char c) = lower_char c"
  by (simp add: lower_char_def Let_def)

lemma lower_idem: "lower (lower w) = lower w"
  by (simp add: lower_def lower_char_idem)

section \<open>Properties\<close>

text \<open>
  C7. While the agent is not speaking, every transcript that is not empty after trimming
  takes the \<open>speech_registered\<close> branch with reason \<open>agent_quiet\<close>, whatever its
  confidence, its words and its tokens.
\<close>

theorem quiet_agent_registers_speech:
  assumes "strip text \<noteq> []" and "\<not> agent_speaking h"
  shows "\<exists>r. handle_transcript h text confidence words metadata = Some r
             \<and> kind r = ''speech_registered''
             \<and> diag r ''reason'' = Some (PStr ''agent_quiet'')"
  using assms by (simp add: ht_quiet kind_emit diag_emit)

theorem quiet_agent_registers_speech_witness:
  "strip ''stop uh'' \<noteq> [] \<and> \<not> agent_speaking (init None None (1/2) (2/5))
   \<and> (\<exists>r. handle_transcript (init None None (1/2) (2/5)) ''stop uh'' (Some (1/10)) None None
               = Some r
            \<and> kind r = ''speech_registered''
            \<and> diag r ''reason'' = Some (PStr ''agent_quiet''))"
proof -
  have a: "strip ''stop uh'' \<noteq> []" by code_simp
  have b: "\<not> agent_speaking (init None None (1/2) (2/5))" by (simp add: init_def)
  from quiet_agent_registers_speech [OF a b, of "Some (1/10)" None None] a b
  show ?thesis by simp
qed

text \<open>
  C4. While the agent is speaking, a transcript that is not empty after trimming and whose
  average confidence is strictly below \<open>ignore_if_confidence_below\<close> takes the
  \<open>ignored_filler\<close> branch with reason \<open>low_confidence\<close>, whatever its tokens.
  The witness is the text \<open>stop\<close>, a force-stop word, at confidence 0.1.
\<close>

theorem low_confidence_ignored:
  assumes "strip text \<noteq> []" and "agent_speaking h"
    and "compute_avg_conf confidence words < ignore_if_confidence_below h"
  shows "\<exists>r. handle_transcript h text confidence words metadata = Some r
             \<and> kind r = ''ignored_filler''
             \<and> diag r ''reason'' = Some (PStr ''low_confidence'')"
  using assms by (simp add: ht_low kind_emit diag_emit)

theorem low_confidence_ignored_witness:
  "strip ''stop'' \<noteq> []
   \<and> agent_speaking (on_tts_start (init None None (1/2) (2/5)))
   \<and> compute_avg_conf None (Some [WordDict ''stop'' (Some (1/10))])
        < ignore_if_confidence_below (on_tts_start (init None None (1/2) (2/5)))
   \<and> tokenize (strip ''stop'') = [''stop'']
   \<and> ''stop'' \<in> force_stop_words (on_tts_start (init None None (1/2) (2/5)))
   \<and> (\<exists>r. handle_transcript (on_tts_start (init None None (1/2) (2/5))) ''stop'' None
               (Some [WordDict ''stop'' (Some (1/10))]) None = Some r
            \<and> kind r = ''ignored_filler''
            \<and> diag r ''reason'' = Some (PStr ''low_confidence''))"
proof -
  have a: "strip ''stop'' \<noteq> []" by code_simp
  have b: "agent_speaking (on_tts_start (init None None (1/2) (2/5)))"
    by (simp add: on_tts_start_def)
  have c: "compute_avg_conf None (Some [WordDict ''stop'' (Some (1/10))])
             < ignore_if_confidence_below (on_tts_start (init None None (1/2) (2/5)))"
    by code_simp
  have d: "tokenize (strip ''stop'') = [''stop'']" by code_simp
  have e: "''stop'' \<in> force_stop_words (on_tts_start (init None None (1/2) (2/5)))"
    by code_simp
  from low_confidence_ignored [OF a b c, of None] a b c d e show ?thesis by blast
qed

text \<open>
  C5. While the agent is speaking, a transcript that is not empty after trimming, whose
  average confidence is not below \<open>ignore_if_confidence_below\<close> and one of whose tokens
  is a force-stop word takes the \<open>valid_interruption\<close> branch with reason
  \<open>force_stop_word\<close>, whatever the other tokens are. The witness is \<open>uh stop\<close>,
  whose other token is a filler word.
\<close>

theorem force_stop_word_interrupts:
  assumes "strip text \<noteq> []" and "agent_speaking h"
    and "\<not> compute_avg_conf confidence words < ignore_if_confidence_below h"
    and "\<exists>t \<in> set (tokenize (strip text)). t \<in> force_stop_words h"
  shows "\<exists>r. handle_transcript h text confidence words metadata = Some r
             \<and> kind r = ''valid_interruption''
             \<and> diag r ''reason'' = Some (PStr ''force_stop_word'')"
  using assms by (simp add: ht_force list_ex_iff kind_emit diag_emit)

theorem force_stop_word_interrupts_witness:
  "strip ''uh stop'' \<noteq> []
   \<and> agent_speaking (on_tts_start (init None None (1/2) (2/5)))
   \<and> \<not> compute_avg_conf (Some (9/10)) None
        < ignore_if_confidence_below (on_tts_start (init None None (1/2) (2/5)))
   \<and> (\<exists>t \<in> set (tokenize (strip ''uh stop'')).
         t \<in> force_stop_words (on_tts_start (init None None (1/2) (2/5))))
   \<and> ''uh'' \<in> ignored_words (on_tts_start (init None None (1/2) (2/5)))
   \<and> (\<exists>r. handle_transcript (on_tts_start (init None None (1/2) (2/5))) ''uh stop''
               (Some (9/10)) None None = Some r
            \<and> kind r = ''valid_interruption''
            \<and> diag r ''reason'' = Some (PStr ''force_stop_word''))"
proof -
  have a: "strip ''uh stop'' \<noteq> []" by code_simp
  have b: "agent_speaking (on_tts_start (init None None (1/2) (2/5)))"
    by (simp add: on_tts_start_def)
  have c: "\<not> compute_avg_conf (Some (9/10)) None
             < ignore_if_confidence_below (on_tts_start (init None None (1/2) (2/5)))"
    by code_simp
  have d: "\<exists>t \<in> set (tokenize (strip ''uh stop'')).
             t \<in> force_stop_words (on_tts_start (init None None (1/2) (2/5)))"
    by code_simp
  have e: "''uh'' \<in> ignored_words (on_tts_start (init None None (1/2) (2/5)))"
    by code_simp
  from force_stop_word_interrupts [OF a b c d, of None] a b c d e show ?thesis by blast
qed

text \<open>
  C3, as stated: the \<open>filler_only\<close> outcome needs a non-empty token list. The code does
  not ask for one: the text \<open>...\<close> is not empty after trimming, has no token, and takes
  the \<open>ignored_filler\<close> branch with reason \<open>filler_only\<close> while the agent speaks.
\<close>

theorem filler_only_counterexample:
  "strip ''...'' \<noteq> []
   \<and> tokenize (strip ''...'') = []
   \<and> agent_speaking (on_tts_start (init None None (1/2) (2/5)))
   \<and> handle_transcript (on_tts_start (init None None (1/2) (2/5))) ''...'' None None None \<noteq> None
   \<and> kind (the (handle_transcript (on_tts_start (init None None (1/2) (2/5))) ''...'' None None
                  None)) = ''ignored_filler''
   \<and> diag (the (handle_transcript (on_tts_start (init None None (1/2) (2/5))) ''...'' None None
                  None)) ''reason'' = Some (PStr ''filler_only'')"
  by code_simp

text \<open>
  C3, amended: for a transcript that is not empty after trimming, the outcome is
  \<open>ignored_filler\<close> with reason \<open>filler_only\<close> exactly when the agent is speaking,
  the average confidence is not below \<open>ignore_if_confidence_below\<close>, no token is a
  force-stop word and every token is an ignored word (which holds of an empty token list).
\<close>

theorem filler_only_iff:
  assumes "strip text \<noteq> []"
  shows "(\<exists>r. handle_transcript h text confidence words metadata = Some r
              \<and> kind r = ''ignored_filler''
              \<and> diag r ''reason'' = Some (PStr ''filler_only''))
         \<longleftrightarrow>
         (agent_speaking h
          \<and> \<not> compute_avg_conf confidence words < ignore_if_confidence_below h
          \<and> (\<forall>t \<in> set (tokenize (strip text)). t \<notin> force_stop_words h)
          \<and> (\<forall>t \<in> set (tokenize (strip text)). t \<in> ignored_words h))"
proof (cases rule: ht_cases [where h = h and c = confidence and w = words and tx = "text"])
  case quiet
  from ht_quiet [OF assms quiet, of confidence words metadata] quiet
  show ?thesis by (simp add: kind_emit diag_emit)
next
  case low
  from ht_low [OF assms low, of metadata] low
  show ?thesis by (simp add: kind_emit diag_emit)
next
  case force
  from ht_force [OF assms force, of metadata] force
  show ?thesis by (auto simp: kind_emit diag_emit list_ex_iff)
next
  case filler
  from ht_filler [OF assms filler, of metadata] filler
  show ?thesis by (auto simp: kind_emit diag_emit list_ex_iff filter_empty_conv)
next
  case mixed
  from ht_mixed [OF assms mixed, of metadata] mixed
  show ?thesis by (auto simp: kind_emit diag_emit list_ex_iff filter_empty_conv)
qed

theorem filler_only_iff_witness:
  "strip ''uh umm'' \<noteq> []
   \<and> tokenize (strip ''uh umm'') = [''uh'', ''umm'']
   \<and> (\<exists>r. handle_transcript (on_tts_start (init None None (1/2) (2/5))) ''uh umm''
               (Some (9/10)) None None = Some r
            \<and> kind r = ''ignored_filler''
            \<and> diag r ''reason'' = Some (PStr ''filler_only''))"
proof -
  have a: "strip ''uh umm'' \<noteq> []" by code_simp
  have t: "tokenize (strip ''uh umm'') = [''uh'', ''umm'']" by code_simp
  have b: "agent_speaking (on_tts_start (init None None (1/2) (2/5)))
          \<and> \<not> compute_avg_conf (Some (9/10)) None
                < ignore_if_confidence_below (on_tts_start (init None None (1/2) (2/5)))
          \<and> (\<forall>t \<in> set (tokenize (strip ''uh umm'')).
                t \<notin> force_stop_words (on_tts_start (init None None (1/2) (2/5))))
          \<and> (\<forall>t \<in> set (tokenize (strip ''uh umm'')).
                t \<in> ignored_words (on_tts_start (init None None (1/2) (2/5))))"
    by code_simp
  from filler_only_iff [OF a, of "on_tts_start (init None None (1/2) (2/5))" "Some (9/10)" None None]
    a t b
  show ?thesis by blast
qed

text \<open>
  C1, as stated: on a key held both by the caller's metadata and by the diagnostic fields,
  the diagnostic value wins. Every branch builds the dict as
  \<open>{"reason": ..., "avg_conf": ..., **metadata}\<close>, so the caller's entry comes last and
  wins: with caller metadata \<open>{"reason": "custom"}\<close> the branch's reason is
  \<open>agent_quiet\<close> and the callback receives \<open>custom\<close>.
\<close>

theorem callback_metadata_counterexample:
  "strip ''hi'' \<noteq> []
   \<and> length (calls (the (handle_transcript
         (on_speech_registered (init None None (1/2) (2/5)) cb_return)
         ''hi'' None None (Some [''reason'' \<mapsto> PStr ''custom''])))) = 1
   \<and> diag (the (handle_transcript (on_speech_registered (init None None (1/2) (2/5)) cb_return)
                  ''hi'' None None (Some [''reason'' \<mapsto> PStr ''custom''])))
        ''reason'' = Some (PStr ''agent_quiet'')
   \<and> snd (snd (hd (calls (the (handle_transcript
         (on_speech_registered (init None None (1/2) (2/5)) cb_return)
         ''hi'' None None (Some [''reason'' \<mapsto> PStr ''custom'']))))))
        ''reason'' = Some (PStr ''custom'')"
  by code_simp

text \<open>
  C1, amended: whenever \<open>handle_transcript\<close> calls a callback, it is the one registered
  under the outcome's key, it receives the trimmed text, and its metadata argument is the
  diagnostic fields merged with the caller's metadata: its keys are the keys of both, a key
  of the caller's metadata carries the caller's value (also when a diagnostic field has the
  same name), and every other key carries the diagnostic value. The diagnostic fields are
  \<open>reason\<close> (one of the five reasons), \<open>avg_conf\<close> (the average confidence) and, for
  \<open>mixed_tokens\<close> only, \<open>non_ignored\<close> (the tokens that are not ignored words, in
  order).
\<close>

theorem callback_metadata_caller_wins:
  assumes "handle_transcript h text confidence words metadata = Some r"
    and "(key, t, payload) \<in> set (calls r)"
  shows "key = kind r \<and> callbacks h key \<noteq> None \<and> t = strip text
       \<and> dom payload = dom (diag r) \<union> dom (or_empty metadata)
       \<and> (\<forall>k \<in> dom (or_empty metadata). payload k = or_empty metadata k)
       \<and> (\<forall>k. k \<notin> dom (or_empty metadata) \<longrightarrow> payload k = diag r k)
       \<and> diag r ''avg_conf'' = Some (PNum (compute_avg_conf confidence words))
       \<and> diag r ''reason'' \<in> Some ` PStr ` {''low_confidence'', ''force_stop_word'',
                                   ''filler_only'', ''mixed_tokens'', ''agent_quiet''}
       \<and> (diag r ''reason'' = Some (PStr ''mixed_tokens'') \<longrightarrow>
            diag r ''non_ignored'' =
              Some (PList (map PStr (filter (\<lambda>t. t \<notin> ignored_words h)
                                       (tokenize (strip text))))))
       \<and> (diag r ''reason'' \<noteq> Some (PStr ''mixed_tokens'') \<longrightarrow> diag r ''non_ignored'' = None)"
proof -
  from ht_calls(1) [OF assms(1)] assms(2)
  have p: "key = kind r \<and> callbacks h key \<noteq> None \<and> t = strip text
           \<and> payload = diag r ++ or_empty metadata"
    by (cases "callbacks h (kind r)") simp_all
  have m1: "dom payload = dom (diag r) \<union> dom (or_empty metadata)"
    using p by auto
  have m2: "\<forall>k \<in> dom (or_empty metadata). payload k = or_empty metadata k"
    using p by (auto simp: map_add_def)
  have m3: "\<forall>k. k \<notin> dom (or_empty metadata) \<longrightarrow> payload k = diag r k"
    using p by (simp add: map_add_dom_app_simps)
  from p have p1: "key = kind r" and p2: "callbacks h key \<noteq> None" and p3: "t = strip text"
    by blast+
  show ?thesis
    using p1 p2 p3 m1 m2 m3 ht_diag(1-4) [OF assms(1)] by (intro conjI)
qed

theorem callback_metadata_caller_wins_witness:
  "\<exists>r key t payload.
      handle_transcript
        (on_valid_interruption (on_tts_start (init None None (1/2) (2/5))) cb_return)
        ''book a flight'' (Some (9/10)) None
        (Some [''reason'' \<mapsto> PStr ''custom'', ''speaker'' \<mapsto> PStr ''alice'']) = Some r
      \<and> (key, t, payload) \<in> set (calls r)
      \<and> key = ''valid_interruption''
      \<and> diag r ''reason'' = Some (PStr ''mixed_tokens'')
      \<and> payload ''reason'' = Some (PStr ''custom'')
      \<and> payload ''speaker'' = Some (PStr ''alice'')
      \<and> payload ''avg_conf'' = Some (PNum (9/10))
      \<and> payload ''non_ignored'' = Some (PList [PStr ''book'', PStr ''a'', PStr ''flight''])"
proof -
  define H where
    "H = on_valid_interruption (on_tts_start (init None None (1/2) (2/5))) cb_return"
  define MD where
    "MD = Some [''reason'' \<mapsto> PStr ''custom'', ''speaker'' \<mapsto> PStr ''alice'']"
  define D where
    "D = [''reason'' \<mapsto> PStr ''mixed_tokens'',
          ''non_ignored'' \<mapsto>
             PList (map PStr (filter (\<lambda>t. t \<notin> ignored_words H)
                                (tokenize (strip ''book a flight'')))),
          ''avg_conf'' \<mapsto> PNum (compute_avg_conf (Some (9/10)) None)]"
  define R where "R = emit H ''valid_interruption'' (strip ''book a flight'') D (or_empty MD)"
  have ne: "strip ''book a flight'' \<noteq> []" by code_simp
  have sp: "agent_speaking H"
    by (simp add: H_def on_valid_interruption_def on_tts_start_def)
  have cf: "\<not> compute_avg_conf (Some (9/10)) None < ignore_if_confidence_below H"
    unfolding H_def by code_simp
  have fs: "\<not> list_ex (\<lambda>t. t \<in> force_stop_words H) (tokenize (strip ''book a flight''))"
    unfolding H_def by code_simp
  have tk: "filter (\<lambda>t. t \<notin> ignored_words H) (tokenize (strip ''book a flight''))
            = [''book'', ''a'', ''flight'']"
    unfolding H_def by code_simp
  have ni: "filter (\<lambda>t. t \<notin> ignored_words H) (tokenize (strip ''book a flight'')) \<noteq> []"
    by (simp add: tk)
  have r: "handle_transcript H ''book a flight'' (Some (9/10)) None MD = Some R"
    unfolding R_def D_def by (rule ht_mixed [OF ne sp cf fs ni])
  have cb: "callbacks H ''valid_interruption'' = Some cb_return"
    by (simp add: H_def on_valid_interruption_def)
  have mem: "(''valid_interruption'', strip ''book a flight'', D ++ or_empty MD) \<in> set (calls R)"
    by (simp add: R_def calls_emit cb)
  note w = callback_metadata_caller_wins [OF r mem]
  have dr: "diag R ''reason'' = Some (PStr ''mixed_tokens'')"
    by (simp add: R_def diag_emit D_def)
  have av: "compute_avg_conf (Some (9/10)) None = 9/10" by code_simp
  have md1: "''reason'' \<in> dom (or_empty MD)" and md2: "''speaker'' \<in> dom (or_empty MD)"
    and md3: "''avg_conf'' \<notin> dom (or_empty MD)" and md4: "''non_ignored'' \<notin> dom (or_empty MD)"
    and md5: "or_empty MD ''reason'' = Some (PStr ''custom'')"
    and md6: "or_empty MD ''speaker'' = Some (PStr ''alice'')"
    by (simp_all add: or_empty_def MD_def)
  from w md1 md5 have p1: "(D ++ or_empty MD) ''reason'' = Some (PStr ''custom'')" by metis
  from w md2 md6 have p2: "(D ++ or_empty MD) ''speaker'' = Some (PStr ''alice'')" by metis
  from w md3 av have p3: "(D ++ or_empty MD) ''avg_conf'' = Some (PNum (9/10))" by metis
  from w md4 dr tk
  have p4: "(D ++ or_empty MD) ''non_ignored''
              = Some (PList [PStr ''book'', PStr ''a'', PStr ''flight''])"
    by simp
  from r mem dr p1 p2 p3 p4
  have "\<exists>r key t payload.
      handle_transcript H ''book a flight'' (Some (9/10)) None MD = Some r
      \<and> (key, t, payload) \<in> set (calls r)
      \<and> key = ''valid_interruption''
      \<and> diag r ''reason'' = Some (PStr ''mixed_tokens'')
      \<and> payload ''reason'' = Some (PStr ''custom'')
      \<and> payload ''speaker'' = Some (PStr ''alice'')
      \<and> payload ''avg_conf'' = Some (PNum (9/10))
      \<and> payload ''non_ignored'' = Some (PList [PStr ''book'', PStr ''a'', PStr ''flight''])"
    by (intro exI conjI) (assumption | rule refl)+
  then show ?thesis unfolding H_def MD_def .
qed

text \<open>
  C2, as stated: an exception raised by a handler is caught inside \<open>handle_transcript\<close>.
  The source calls \<open>cb(text, {...})\<close> with no \<open>try\<close> around it, in every branch: with
  a raising callback registered for \<open>ignored_filler\<close>, the filler \<open>uh\<close> makes the
  call raise that callback's exception.
\<close>

theorem handler_exception_counterexample:
  "strip ''uh'' \<noteq> []
   \<and> handle_transcript (on_ignored_filler (on_tts_start (init None None (1/2) (2/5))) cb_raise)
        ''uh'' None None None \<noteq> None
   \<and> fst (hd (calls (the (handle_transcript
        (on_ignored_filler (on_tts_start (init None None (1/2) (2/5))) cb_raise)
        ''uh'' None None None)))) = ''ignored_filler''
   \<and> raised (the (handle_transcript
        (on_ignored_filler (on_tts_start (init None None (1/2) (2/5))) cb_raise)
        ''uh'' None None None)) = Some (PyExn ''boom'')"
  by code_simp

text \<open>
  C2, amended: for a transcript that is not empty after trimming, what leaves
  \<open>handle_transcript\<close> is what the callback registered for the outcome's kind does with
  the trimmed text and the merged metadata: the call returns normally when no callback is
  registered for that kind or the callback returns, and raises the callback's exception
  when the callback raises.
\<close>

theorem handler_exception_propagates:
  assumes "strip text \<noteq> []"
  shows "\<exists>r. handle_transcript h text confidence words metadata = Some r
           \<and> raised r =
               (case callbacks h (kind r) of
                  None \<Rightarrow> None
                | Some cb \<Rightarrow> cb (strip text) (diag r ++ or_empty metadata))"
proof -
  from ht_some_emit [OF assms, of h confidence words metadata]
  obtain r where r: "handle_transcript h text confidence words metadata = Some r" by blast
  from ht_calls(2) [OF r] r show ?thesis by blast
qed

theorem handler_exception_propagates_witness:
  "strip ''umm  hmm'' \<noteq> []
   \<and> (\<exists>r. handle_transcript
              (on_ignored_filler (on_tts_start (init None None (1/2) (2/5))) cb_raise)
              ''umm  hmm'' (Some (4/5)) None None = Some r
          \<and> raised r = Some (PyExn ''boom''))"
proof -
  define H where "H = on_ignored_filler (on_tts_start (init None None (1/2) (2/5))) cb_raise"
  have a: "strip ''umm  hmm'' \<noteq> []" by code_simp
  from handler_exception_propagates [OF a, of H "Some (4/5)" None None]
  obtain r where r: "handle_transcript H ''umm  hmm'' (Some (4/5)) None None = Some r"
    and e: "raised r = (case callbacks H (kind r) of None \<Rightarrow> None
                        | Some cb \<Rightarrow> cb (strip ''umm  hmm'') (diag r ++ or_empty None))"
    by blast
  have "kind (the (handle_transcript H ''umm  hmm'' (Some (4/5)) None None)) = ''ignored_filler''"
    unfolding H_def by code_simp
  with r have k: "kind r = ''ignored_filler''" by simp
  have cb: "callbacks H ''ignored_filler'' = Some cb_raise"
    by (simp add: H_def on_ignored_filler_def)
  from e have "raised r = Some (PyExn ''boom'')"
    by (simp add: k cb cb_raise_def)
  with r a have "strip ''umm  hmm'' \<noteq> []
     \<and> (\<exists>r. handle_transcript H ''umm  hmm'' (Some (4/5)) None None = Some r
            \<and> raised r = Some (PyExn ''boom''))"
    by (intro conjI exI) assumption+
  then show ?thesis unfolding H_def .
qed

text \<open>
  C6. A transcript that is empty after trimming gives no outcome and no callback call. A
  transcript that is not empty after trimming gives one outcome, of one of the three kinds,
  and at most one callback call, to the callback registered under that kind.
\<close>

theorem one_outcome_per_transcript:
  "(strip text = [] \<longrightarrow> handle_transcript h text confidence words metadata = None)
   \<and> (strip text \<noteq> [] \<longrightarrow>
        (\<exists>r. handle_transcript h text confidence words metadata = Some r
            \<and> kind r \<in> {''valid_interruption'', ''ignored_filler'', ''speech_registered''}
            \<and> length (calls r) \<le> 1
            \<and> (\<forall>(key, t, payload) \<in> set (calls r). key = kind r \<and> callbacks h key \<noteq> None)))"
proof (intro conjI impI)
  assume "strip text = []"
  then show "handle_transcript h text confidence words metadata = None" by (rule ht_empty)
next
  assume ne: "strip text \<noteq> []"
  from ht_some_emit [OF ne, of h confidence words metadata]
  obtain r where r: "handle_transcript h text confidence words metadata = Some r" by blast
  have c: "length (calls r) \<le> 1
           \<and> (\<forall>(key, t, payload) \<in> set (calls r). key = kind r \<and> callbacks h key \<noteq> None)"
    using ht_calls(1) [OF r] by (cases "callbacks h (kind r)") simp_all
  from r ht_calls(3) [OF r] c
  show "\<exists>r. handle_transcript h text confidence words metadata = Some r
            \<and> kind r \<in> {''valid_interruption'', ''ignored_filler'', ''speech_registered''}
            \<and> length (calls r) \<le> 1
            \<and> (\<forall>(key, t, payload) \<in> set (calls r). key = kind r \<and> callbacks h key \<noteq> None)"
    by (intro exI conjI) (assumption | erule conjunct1 | erule conjunct2)+
qed

theorem one_outcome_per_transcript_witness:
  "strip ''  '' = []
   \<and> handle_transcript (on_speech_registered (init None None (1/2) (2/5)) cb_return)
        ''  '' (Some (9/10)) None None = None
   \<and> strip '' hello there '' \<noteq> []
   \<and> (\<exists>r. handle_transcript (on_speech_registered (init None None (1/2) (2/5)) cb_return)
              '' hello there '' (Some (9/10)) None None = Some r
          \<and> kind r \<in> {''valid_interruption'', ''ignored_filler'', ''speech_registered''}
          \<and> length (calls r) \<le> 1
          \<and> (\<forall>(key, t, payload) \<in> set (calls r).
                key = kind r
                \<and> callbacks (on_speech_registered (init None None (1/2) (2/5)) cb_return) key
                    \<noteq> None))"
proof -
  have a: "strip ''  '' = []" by code_simp
  have b: "strip '' hello there '' \<noteq> []" by code_simp
  have 1: "handle_transcript (on_speech_registered (init None None (1/2) (2/5)) cb_return)
        ''  '' (Some (9/10)) None None = None"
    by (rule one_outcome_per_transcript [THEN conjunct1, THEN mp, OF a])
  have 2: "\<exists>r. handle_transcript (on_speech_registered (init None None (1/2) (2/5)) cb_return)
              '' hello there '' (Some (9/10)) None None = Some r
          \<and> kind r \<in> {''valid_interruption'', ''ignored_filler'', ''speech_registered''}
          \<and> length (calls r) \<le> 1
          \<and> (\<forall>(key, t, payload) \<in> set (calls r).
                key = kind r
                \<and> callbacks (on_speech_registered (init None None (1/2) (2/5)) cb_return) key
                    \<noteq> None)"
    by (rule one_outcome_per_transcript [THEN conjunct2, THEN mp, OF b])
  from a 1 b 2 show ?thesis by (intro conjI)
qed

text \<open>
  C8, as stated: with a non-empty \<open>words\<close> list the average confidence is the mean of
  the per-word confidences, and the caller's \<open>confidence\<close> is used only otherwise. A
  non-empty list none of whose entries is a dict has no per-word confidence to average;
  the code then falls back (line 157) to the caller's \<open>confidence\<close>, so the same
  \<open>words\<close> list gives 0.3, 0.7 or the default 1.0 with the caller's value.
\<close>

theorem avg_conf_counterexample:
  "Some [NotDict (PStr ''uh'')] \<noteq> None
   \<and> [NotDict (PStr ''uh'')] \<noteq> []
   \<and> entry_confidences [NotDict (PStr ''uh'')] = []
   \<and> compute_avg_conf (Some (3/10)) (Some [NotDict (PStr ''uh'')]) = 3/10
   \<and> compute_avg_conf (Some (7/10)) (Some [NotDict (PStr ''uh'')]) = 7/10
   \<and> compute_avg_conf None (Some [NotDict (PStr ''uh'')]) = 1"
  by code_simp

text \<open>
  C8, amended: when \<open>words\<close> holds at least one dict entry, the average confidence is
  the unweighted mean of the confidences of its dict entries (a dict without a confidence
  counts as 1.0; entries that are not dicts are skipped); otherwise (no \<open>words\<close>, an
  empty list, or a list without any dict) it is the caller's \<open>confidence\<close> when there is
  one, and 1.0 when there is none.
\<close>

theorem avg_conf_resolution:
  "compute_avg_conf confidence words =
     (if records_of words \<noteq> []
      then mean (map record_confidence (records_of words))
      else (case confidence of Some c \<Rightarrow> c | None \<Rightarrow> 1))"
proof (cases words)
  case None
  then show ?thesis
    by (simp add: compute_avg_conf_def records_of_def confidence_or_one_def split: option.split)
next
  case (Some ws)
  then show ?thesis
    by (cases ws)
       (simp_all add: compute_avg_conf_def records_of_def confidence_or_one_def mean_def
          entry_confidences_eq Let_def split: option.split)
qed

theorem avg_conf_resolution_witness:
  "records_of (Some [WordDict ''stop'' (Some (1/10)), NotDict PNone, WordDict ''now'' None]) \<noteq> []
   \<and> compute_avg_conf (Some (3/10))
        (Some [WordDict ''stop'' (Some (1/10)), NotDict PNone, WordDict ''now'' None]) = 11/20
   \<and> records_of (Some [NotDict PNone]) = []
   \<and> compute_avg_conf (Some (3/10)) (Some [NotDict PNone]) = 3/10
   \<and> compute_avg_conf None None = 1"
proof -
  have a: "records_of (Some [WordDict ''stop'' (Some (1/10)), NotDict PNone, WordDict ''now'' None])
             \<noteq> []"
    by (simp add: records_of_def)
  have m: "mean (map record_confidence
             (records_of (Some [WordDict ''stop'' (Some (1/10)), NotDict PNone,
                                WordDict ''now'' None]))) = 11/20"
    by (simp add: records_of_def mean_def)
  have b: "records_of (Some [NotDict PNone]) = []" by (simp add: records_of_def)
  have c: "records_of None = []" by (simp add: records_of_def)
  have 1: "compute_avg_conf (Some (3/10))
        (Some [WordDict ''stop'' (Some (1/10)), NotDict PNone, WordDict ''now'' None]) = 11/20"
    using avg_conf_resolution [of "Some (3/10)"
            "Some [WordDict ''stop'' (Some (1/10)), NotDict PNone, WordDict ''now'' None]"] a m
    by simp
  have 2: "compute_avg_conf (Some (3/10)) (Some [NotDict PNone]) = 3/10"
    using avg_conf_resolution [of "Some (3/10)" "Some [NotDict PNone]"] b by simp
  have 3: "compute_avg_conf None None = 1"
    using avg_conf_resolution [of None None] c by simp
  from a 1 b 2 3 show ?thesis by (intro conjI)
qed

text \<open>
  C9, as stated: the two word sets hold lowercase, trimmed entries only. The constructor and
  the two updates apply \<open>lower()\<close> to each entry and never \<open>strip()\<close>: an entry
  supplied with surrounding whitespace keeps it.
\<close>

theorem word_sets_counterexample:
  "'' uh '' \<in> ignored_words (init (Some ['' Uh '']) None (1/2) (2/5))
   \<and> '' uh '' \<in> ignored_words (update_ignored_words (init None None (1/2) (2/5)) ['' Uh ''])
   \<and> ''stop  '' \<in> force_stop_words
        (update_force_stop_words (init None None (1/2) (2/5)) [''STOP  ''])
   \<and> strip '' uh '' \<noteq> '' uh ''
   \<and> strip ''stop  '' \<noteq> ''stop  ''"
  by code_simp

text \<open>
  C9, amended: after construction and after every \<open>update_ignored_words\<close> or
  \<open>update_force_stop_words\<close> call, both word sets hold lowercase entries only (each
  entry is left unchanged by \<open>lower\<close>). The sets written by the constructor are the
  lowercased supplied entries, or the lowercased defaults when none are supplied; the set
  written by an update is the set of the lowercased supplied entries. Each entry keeps the
  whitespace it was supplied with.
\<close>

theorem word_sets_lowercase:
  "lowercase_sets (init ignored force_stop min_conf ignore_below)
   \<and> ignored_words (init ignored force_stop min_conf ignore_below)
       = lower ` set (or_default ignored DEFAULT_IGNORED_WORDS)
   \<and> force_stop_words (init ignored force_stop min_conf ignore_below)
       = lower ` set (or_default force_stop DEFAULT_FORCE_STOP_WORDS)
   \<and> ignored_words (update_ignored_words h new_list) = lower ` set new_list
   \<and> force_stop_words (update_force_stop_words h new_list) = lower ` set new_list
   \<and> (lowercase_sets h \<longrightarrow>
        lowercase_sets (update_ignored_words h new_list)
        \<and> lowercase_sets (update_force_stop_words h new_list))"
proof (intro conjI impI)
  show "lowercase_sets (init ignored force_stop min_conf ignore_below)"
    by (auto simp: lowercase_sets_def init_def lower_idem)
  show "ignored_words (init ignored force_stop min_conf ignore_below)
          = lower ` set (or_default ignored DEFAULT_IGNORED_WORDS)"
    by (simp add: init_def)
  show "force_stop_words (init ignored force_stop min_conf ignore_below)
          = lower ` set (or_default force_stop DEFAULT_FORCE_STOP_WORDS)"
    by (simp add: init_def)
  show "ignored_words (update_ignored_words h new_list) = lower ` set new_list"
    by (simp add: update_ignored_words_def)
  show "force_stop_words (update_force_stop_words h new_list) = lower ` set new_list"
    by (simp add: update_force_stop_words_def)
next
  assume "lowercase_sets h"
  then show "lowercase_sets (update_ignored_words h new_list)"
    by (auto simp: lowercase_sets_def update_ignored_words_def lower_idem)
next
  assume "lowercase_sets h"
  then show "lowercase_sets (update_force_stop_words h new_list)"
    by (auto simp: lowercase_sets_def update_force_stop_words_def lower_idem)
qed

theorem word_sets_lowercase_witness:
  "lowercase_sets (init (Some ['' Uh '', ''HMM'']) None (1/2) (2/5))
   \<and> ignored_words (init (Some ['' Uh '', ''HMM'']) None (1/2) (2/5)) = {'' uh '', ''hmm''}
   \<and> force_stop_words (init (Some ['' Uh '', ''HMM'']) None (1/2) (2/5))
       = lower ` set DEFAULT_FORCE_STOP_WORDS
   \<and> lowercase_sets (update_force_stop_words (init (Some ['' Uh '', ''HMM'']) None (1/2) (2/5))
                       [''STOP  '', ''Wait''])
   \<and> force_stop_words (update_force_stop_words (init (Some ['' Uh '', ''HMM'']) None (1/2) (2/5))
                       [''STOP  '', ''Wait'']) = {''stop  '', ''wait''}"
proof -
  note w = word_sets_lowercase [of "Some ['' Uh '', ''HMM'']" None "1/2" "2/5"
             "init (Some ['' Uh '', ''HMM'']) None (1/2) (2/5)" "[''STOP  '', ''Wait'']"]
  have l1: "lower ''STOP  '' = ''stop  ''" by code_simp
  have l2: "lower ''Wait'' = ''wait''" by code_simp
  have l3: "lower '' Uh '' = '' uh ''" by code_simp
  have l4: "lower ''HMM'' = ''hmm''" by code_simp
  have l: "lower ` set [''STOP  '', ''Wait''] = {''stop  '', ''wait''}"
    by (simp add: l1 l2)
  have i: "lower ` set (or_default (Some ['' Uh '', ''HMM'']) DEFAULT_IGNORED_WORDS)
             = {'' uh '', ''hmm''}"
    by (simp add: or_default_def l3 l4)
  have f: "lower ` set (or_default None DEFAULT_FORCE_STOP_WORDS)
             = lower ` set DEFAULT_FORCE_STOP_WORDS"
    by (simp add: or_default_def)
  from w have 1: "lowercase_sets (init (Some ['' Uh '', ''HMM'']) None (1/2) (2/5))"
    by (rule conjunct1)
  from w [THEN conjunct2, THEN conjunct1] i
  have 2: "ignored_words (init (Some ['' Uh '', ''HMM'']) None (1/2) (2/5))
             = {'' uh '', ''hmm''}"
    by (rule trans)
  from w [THEN conjunct2, THEN conjunct2, THEN conjunct1] f
  have 3: "force_stop_words (init (Some ['' Uh '', ''HMM'']) None (1/2) (2/5))
             = lower ` set DEFAULT_FORCE_STOP_WORDS"
    by (rule trans)
  from w [THEN conjunct2, THEN conjunct2, THEN conjunct2, THEN conjunct2, THEN conjunct2,
          THEN mp, OF 1]
  have 4: "lowercase_sets (update_force_stop_words
             (init (Some ['' Uh '', ''HMM'']) None (1/2) (2/5)) [''STOP  '', ''Wait''])"
    by (rule conjunct2)
  from w [THEN conjunct2, THEN conjunct2, THEN conjunct2, THEN conjunct2, THEN conjunct1] l
  have 5: "force_stop_words (update_force_stop_words
             (init (Some ['' Uh '', ''HMM'']) None (1/2) (2/5)) [''STOP  '', ''Wait''])
           = {''stop  '', ''wait''}"
    by (rule trans)
  from 1 2 3 4 5 show ?thesis by (intro conjI)
qed

text \<open>
  C10. Two handlers that agree on every field except \<open>min_confidence_to_consider\<close> do
  the same on every transcript: the same outcome kind, diagnostic fields (reason and average
  confidence), callback calls and exception, or both drop the transcript.
\<close>

theorem min_confidence_irrelevant:
  assumes "same_but_min_confidence h1 h2"
  shows "handle_transcript h1 text confidence words metadata
         = handle_transcript h2 text confidence words metadata"
  using assms by (simp add: same_but_min_confidence_def handle_transcript_def emit_def Let_def)

theorem min_confidence_irrelevant_witness:
  "same_but_min_confidence
     (on_valid_interruption (on_tts_start (init None None (1/2) (2/5))) cb_return)
     (on_valid_interruption (on_tts_start (init None None (9/10) (2/5))) cb_return)
   \<and> handle_transcript
        (on_valid_interruption (on_tts_start (init None None (1/2) (2/5))) cb_return)
        ''please stop'' (Some (3/5)) None None
     = handle_transcript
        (on_valid_interruption (on_tts_start (init None None (9/10) (2/5))) cb_return)
        ''please stop'' (Some (3/5)) None None"
proof -
  have a: "same_but_min_confidence
     (on_valid_interruption (on_tts_start (init None None (1/2) (2/5))) cb_return)
     (on_valid_interruption (on_tts_start (init None None (9/10) (2/5))) cb_return)"
    by (simp add: same_but_min_confidence_def on_valid_interruption_def on_tts_start_def init_def)
  from a min_confidence_irrelevant [OF a, of "''please stop''" "Some (3/5)" None None]
  show ?thesis by (intro conjI)
qed

end
